theory Spec2Isabelle
  imports Complex_Main "HOL-Library.Multiset"
begin

chapter \<open>The LLMOps notebooks: serving, prompt rendering, data preparation\<close>

text \<open>
  The repository is a set of notebooks. Each code cell is straight-line Python over the
  notebook's variables and a handful of library calls. The embedding keeps the cells'
  variable names, turns every exception into a value of a sum type, threads the state a
  cell can change through the model, and takes what the outside world decides (the value
  drawn by the random generator, the answers of the model hosting service, the outcome
  of a warehouse query) as an explicit argument.
\<close>

section \<open>Serving notebook, steps 3 to 6: selecting an endpoint and sending a prompt\<close>

text \<open>
  \<^verbatim>\<open>
  list_tuned_models = model.list_tuned_model_names()
  tuned_model_select = random.choice(list_tuned_models)
  deployed_model = TextGenerationModel.get_tuned_model(tuned_model_select)
  response = deployed_model.predict(PROMPT)
  \<close>
  No cell wraps a call in \<open>try\<close>: an exception raised by any line ends the run with
  that exception.
\<close>

datatype 'e error =
    EmptyRegistry
  | IndexOutOfRange
  | UpstreamError 'e

text \<open>
  \<open>EmptyRegistry\<close> is the \<open>IndexError\<close> that \<open>random.choice\<close> raises on an empty
  sequence, \<open>IndexOutOfRange\<close> the \<open>IndexError\<close> of a subscript outside the sequence,
  and \<open>UpstreamError e\<close> an exception \<open>e\<close> raised by a call to the hosting service.
\<close>

text \<open>
  \<open>random.choice(seq)\<close> is \<open>seq[self._randbelow(len(seq))]\<close> and raises \<open>IndexError\<close>
  when \<open>seq\<close> is empty. The first argument is the value the generator draws, which
  the library promises to be uniform on \<open>0 .. len(seq) - 1\<close>.
\<close>

definition choice :: "nat \<Rightarrow> 'a list \<Rightarrow> 'e error + 'a" where
  "choice i seq =
     (if length seq = 0 then Inl EmptyRegistry
      else if i < length seq then Inr (seq ! i)
      else Inl IndexOutOfRange)"

text \<open>
  The hosting service, as the notebook uses it: looking up the endpoint of a tuned model
  by name, and sending a prompt to an endpoint. Either call may raise.
\<close>

record ('m, 'r, 'e) service =
  get_tuned_model :: "string \<Rightarrow> 'e + 'm"
  predict :: "'m \<Rightarrow> string \<Rightarrow> 'e + 'r"

text \<open>The calls that reach the hosting service, in the order they are issued.\<close>

datatype call =
    GetTunedModel string
  | Predict string string

text \<open>
  The state a dispatch can see: the registry held in \<open>list_tuned_models\<close> and the log
  of calls issued to the service so far.
\<close>

record notebook =
  list_tuned_models :: "string list"
  calls :: "call list"

definition dispatch ::
  "('m, 'r, 'e) service \<Rightarrow> nat \<Rightarrow> string \<Rightarrow> notebook \<Rightarrow> ('e error + 'r) \<times> notebook"
where
  "dispatch svc i PROMPT s =
     (case choice i (list_tuned_models s) of
        Inl err \<Rightarrow> (Inl err, s)
      | Inr tuned_model_select \<Rightarrow>
          (let s1 = s\<lparr>calls := calls s @ [GetTunedModel tuned_model_select]\<rparr> in
           case get_tuned_model svc tuned_model_select of
             Inl e \<Rightarrow> (Inl (UpstreamError e), s1)
           | Inr deployed_model \<Rightarrow>
               (let s2 = s1\<lparr>calls := calls s1 @ [Predict tuned_model_select PROMPT]\<rparr> in
                case predict svc deployed_model PROMPT of
                  Inl e \<Rightarrow> (Inl (UpstreamError e), s2)
                | Inr response \<Rightarrow> (Inr response, s2))))"





section \<open>Serving notebook, step 9, and data preparation, step 7: rendering a prompt\<close>

text \<open>
  Serving notebook. A backslash at the end of a line inside the triple-quoted literal
  removes the line break, so \<open>INSTRUCTION\<close> is one line that ends in a line feed; the
  f-string of \<open>PROMPT\<close> starts and ends with a line break of its own.
  \<^verbatim>\<open>
  INSTRUCTION = """\
  Please answer the following Stackoverflow question on Python.\
  Answer it like you are a developer answering Stackoverflow questions.\
  Question:
  """
  PROMPT = f"""
  {INSTRUCTION} {QUESTION}
  """
  \<close>
\<close>

definition INSTRUCTION :: string where
  "INSTRUCTION =
     ''Please answer the following Stackoverflow question on Python.''
     @ ''Answer it like you are a developer answering Stackoverflow questions.''
     @ ''Question:'' @ [CHR 0x0A]"

definition render_PROMPT :: "string \<Rightarrow> string \<Rightarrow> string" where
  "render_PROMPT instruction QUESTION =
     [CHR 0x0A] @ instruction @ '' '' @ QUESTION @ [CHR 0x0A]"

text \<open>
  Data preparation, the format of the tuning data:
  \<^verbatim>\<open>
  INSTRUCTION_TEMPLATE = """\
  Please answer the following Stackoverflow question on Python. \
  Answer it like you are a developer answering Stackoverflow questions.

  Stackoverflow question:
  """
  stack_overflow_df['input_text_instruct'] =
      INSTRUCTION_TEMPLATE + ' ' + stack_overflow_df['input_text']
  \<close>
\<close>

definition INSTRUCTION_TEMPLATE :: string where
  "INSTRUCTION_TEMPLATE =
     ''Please answer the following Stackoverflow question on Python. ''
     @ ''Answer it like you are a developer answering Stackoverflow questions.''
     @ [CHR 0x0A, CHR 0x0A] @ ''Stackoverflow question:'' @ [CHR 0x0A]"

definition input_text_instruct :: "string \<Rightarrow> string \<Rightarrow> string" where
  "input_text_instruct template input_text = template @ '' '' @ input_text"

section \<open>Serving notebook, steps 10 and 11: reading the safety and citation fields\<close>

text \<open>
  \<^verbatim>\<open>
  blocked = response._prediction_response[0][0]['safetyAttributes']['blocked']
  safety_attributes = response._prediction_response[0][0]['safetyAttributes']
  citation = response._prediction_response[0][0]['citationMetadata']['citations']
  \<close>
  The response is nested Python data: tuples and lists subscripted by position,
  dictionaries subscripted by key. A dictionary is an association list with the first
  binding of a key the one that counts.
\<close>

datatype pyval =
    PyNone
  | PyBool bool
  | PyNum real
  | PyStr string
  | PyList "pyval list"
  | PyDict "(string \<times> pyval) list"

datatype subscript = Idx nat | Key string

datatype lookup_error = IndexError | KeyError | TypeError

fun getitem :: "pyval \<Rightarrow> subscript \<Rightarrow> lookup_error + pyval" where
  "getitem (PyList xs) (Idx i) = (if i < length xs then Inr (xs ! i) else Inl IndexError)"
| "getitem (PyStr cs) (Idx i) = (if i < length cs then Inr (PyStr [cs ! i]) else Inl IndexError)"
| "getitem (PyDict kvs) (Key k) =
     (case map_of kvs k of None \<Rightarrow> Inl KeyError | Some v \<Rightarrow> Inr v)"
| "getitem (PyDict kvs) (Idx i) = Inl KeyError"
| "getitem v k = Inl TypeError"

fun getitems :: "pyval \<Rightarrow> subscript list \<Rightarrow> lookup_error + pyval" where
  "getitems v [] = Inr v"
| "getitems v (k # ks) = (case getitem v k of Inl e \<Rightarrow> Inl e | Inr w \<Rightarrow> getitems w ks)"

definition blocked :: "pyval \<Rightarrow> lookup_error + pyval" where
  "blocked prediction_response =
     getitems prediction_response [Idx 0, Idx 0, Key ''safetyAttributes'', Key ''blocked'']"

definition safety_attributes :: "pyval \<Rightarrow> lookup_error + pyval" where
  "safety_attributes prediction_response =
     getitems prediction_response [Idx 0, Idx 0, Key ''safetyAttributes'']"

definition citation :: "pyval \<Rightarrow> lookup_error + pyval" where
  "citation prediction_response =
     getitems prediction_response [Idx 0, Idx 0, Key ''citationMetadata'', Key ''citations'']"

section \<open>Data preparation, steps 4.2, 5 and 6: a query result too large to load\<close>

text \<open>
  Step 5:
  \<^verbatim>\<open>
  query_job = bq_client.query(QUERY_ALL)
  try:
      stack_overflow_df = query_job.result().to_arrow().to_pandas()
  except Exception as e:
      print('The DataFrame is too large to load into memory.', e)
  \<close>
  \<open>except Exception\<close> catches every exception derived from \<open>Exception\<close>; an exception
  derived from \<open>BaseException\<close> only (an interrupt, an exit) passes through it.
\<close>

datatype py_exception =
    OversizedResultError string
  | OtherException string
  | NonException string

fun is_Exception :: "py_exception \<Rightarrow> bool" where
  "is_Exception (NonException msg) = False"
| "is_Exception e = True"

fun str :: "py_exception \<Rightarrow> string" where
  "str (OversizedResultError msg) = msg"
| "str (OtherException msg) = msg"
| "str (NonException msg) = msg"

text \<open>
  The warehouse client: submitting a query gives a job, loading the job's result into a
  data frame may raise.
\<close>

record ('job, 'df) warehouse =
  query :: "string \<Rightarrow> py_exception + 'job"
  to_pandas :: "'job \<Rightarrow> py_exception + 'df"

text \<open>The variables of the data preparation notebook that these cells touch, and its output.\<close>

record ('job, 'df) dataprep =
  query_job :: "'job"
  stack_overflow_df :: "'df"
  stdout :: "string list"

definition QUERY_ALL :: string where
  "QUERY_ALL =
     [CHR 0x0A] @ ''SELECT'' @ [CHR 0x0A] @ ''    *'' @ [CHR 0x0A] @ ''FROM'' @ [CHR 0x0A]
     @ ''    '' @ [CHR 0x60] @ ''bigquery-public-data.stackoverflow.posts_questions''
     @ [CHR 0x60] @ '' q'' @ [CHR 0x0A]"

definition INSPECT_QUERY :: string where
  "INSPECT_QUERY =
     [CHR 0x0A] @ ''SELECT'' @ [CHR 0x0A] @ ''    *'' @ [CHR 0x0A] @ ''FROM'' @ [CHR 0x0A]
     @ ''    '' @ [CHR 0x60] @ ''bigquery-public-data.stackoverflow.posts_questions''
     @ [CHR 0x60] @ [CHR 0x0A] @ ''LIMIT 3'' @ [CHR 0x0A]"

text \<open>
  A cell ends either normally (\<open>None\<close>) or with an exception that nothing caught
  (\<open>Some e\<close>), which stops the run.
\<close>

text \<open>
  Step 4.2 loads three rows, outside any \<open>try\<close>:
  \<^verbatim>\<open>
  query_job = bq_client.query(INSPECT_QUERY)
  stack_overflow_df = query_job.result().to_arrow().to_pandas()
  \<close>
\<close>

definition step4_2 ::
  "('job, 'df) warehouse \<Rightarrow> ('job, 'df) dataprep \<Rightarrow> py_exception option \<times> ('job, 'df) dataprep"
where
  "step4_2 bq_client s =
     (case query bq_client INSPECT_QUERY of
        Inl e \<Rightarrow> (Some e, s)
      | Inr job \<Rightarrow>
          (let s1 = s\<lparr>query_job := job\<rparr> in
           case to_pandas bq_client (query_job s1) of
             Inl e \<Rightarrow> (Some e, s1)
           | Inr df \<Rightarrow> (None, s1\<lparr>stack_overflow_df := df\<rparr>)))"

text \<open>Step 5 is the one load that sits in a \<open>try\<close> (the cell shown above).\<close>

definition step5 ::
  "('job, 'df) warehouse \<Rightarrow> ('job, 'df) dataprep \<Rightarrow> py_exception option \<times> ('job, 'df) dataprep"
where
  "step5 bq_client s =
     (case query bq_client QUERY_ALL of
        Inl e \<Rightarrow> (Some e, s)
      | Inr job \<Rightarrow>
          (let s1 = s\<lparr>query_job := job\<rparr> in
           case to_pandas bq_client (query_job s1) of
             Inr df \<Rightarrow> (None, s1\<lparr>stack_overflow_df := df\<rparr>)
           | Inl e \<Rightarrow>
               if is_Exception e
               then (None, s1\<lparr>stdout := stdout s1 @
                       [''The DataFrame is too large to load into memory. '' @ str e]\<rparr>)
               else (Some e, s1)))"

definition QUERY :: string where
  "QUERY =
     [CHR 0x0A] @ ''SELECT'' @ [CHR 0x0A]
     @ ''    CONCAT(q.title, q.body) as input_text,'' @ [CHR 0x0A]
     @ ''    a.body AS output_text'' @ [CHR 0x0A]
     @ ''FROM'' @ [CHR 0x0A]
     @ ''    '' @ [CHR 0x60] @ ''bigquery-public-data.stackoverflow.posts_questions''
     @ [CHR 0x60] @ '' q'' @ [CHR 0x0A]
     @ ''JOIN'' @ [CHR 0x0A]
     @ ''    '' @ [CHR 0x60] @ ''bigquery-public-data.stackoverflow.posts_answers''
     @ [CHR 0x60] @ '' a'' @ [CHR 0x0A]
     @ ''ON'' @ [CHR 0x0A] @ ''    q.accepted_answer_id = a.id'' @ [CHR 0x0A]
     @ ''WHERE'' @ [CHR 0x0A]
     @ ''    q.accepted_answer_id IS NOT NULL AND'' @ [CHR 0x0A]
     @ ''    REGEXP_CONTAINS(q.tags, '' @ [CHR 0x22] @ ''python'' @ [CHR 0x22] @ '') AND''
     @ [CHR 0x0A]
     @ ''    a.creation_date >= '' @ [CHR 0x22] @ ''2020-01-01'' @ [CHR 0x22] @ [CHR 0x0A]
     @ ''LIMIT'' @ [CHR 0x0A] @ ''    10000'' @ [CHR 0x0A]"

text \<open>
  Step 6 submits the next query and loads its result, outside any \<open>try\<close>:
  \<^verbatim>\<open>
  query_job = bq_client.query(QUERY)
  stack_overflow_df = query_job.result().to_arrow().to_pandas()
  \<close>
\<close>

definition step6 ::
  "('job, 'df) warehouse \<Rightarrow> ('job, 'df) dataprep \<Rightarrow> py_exception option \<times> ('job, 'df) dataprep"
where
  "step6 bq_client s =
     (case query bq_client QUERY of
        Inl e \<Rightarrow> (Some e, s)
      | Inr job \<Rightarrow>
          (let s1 = s\<lparr>query_job := job\<rparr> in
           case to_pandas bq_client (query_job s1) of
             Inl e \<Rightarrow> (Some e, s1)
           | Inr df \<Rightarrow> (None, s1\<lparr>stack_overflow_df := df\<rparr>)))"

text \<open>Running the cells in order: the run stops at the first cell that ends with an exception.\<close>

fun run_cells ::
  "('s \<Rightarrow> py_exception option \<times> 's) list \<Rightarrow> 's \<Rightarrow> py_exception option \<times> 's" where
  "run_cells [] s = (None, s)"
| "run_cells (cell # cells) s =
     (case cell s of
        (Some e, s') \<Rightarrow> (Some e, s')
      | (None, s') \<Rightarrow> run_cells cells s')"

section \<open>Data preparation, step 8: splitting into training and evaluation rows\<close>

text \<open>
  \<^verbatim>\<open>
  train, evaluation = train_test_split(
      stack_overflow_df,
      test_size=0.2,
      random_state=42
  )
  \<close>
  The cell is one call into scikit-learn, whose code is not part of the repository.
\<close>

datatype split_error = ValueError | IndexError_iloc

text \<open>
  Modelled from the spec: numpy's random generator, which the repository does not
  contain. A generator state is made from an integer seed or is the process-wide one;
  \<open>permutation g n\<close> is the shuffled index sequence that state \<open>g\<close> yields for \<open>n\<close> rows.
\<close>

record 'g numpy_random =
  RandomState :: "nat \<Rightarrow> 'g"
  global_random_state :: "'g"
  permutation :: "'g \<Rightarrow> nat \<Rightarrow> nat list"

text \<open>
  Modelled from the spec: the library's choice of generator, absent from the sources. An
  integer \<open>random_state\<close> seeds a fresh generator; without one the process-wide
  generator is used.
\<close>

definition check_random_state :: "'g numpy_random \<Rightarrow> nat option \<Rightarrow> 'g" where
  "check_random_state np random_state =
     (case random_state of
        None \<Rightarrow> global_random_state np
      | Some seed \<Rightarrow> RandomState np seed)"

text \<open>
  Modelled from the spec: the library's sizing of the two parts, absent from the sources.
  The evaluation part gets \<open>test_size\<close> of the rows, rounded up, and the training part
  the remainder; the library refuses a split whose training part would be empty. (The
  library computes the product in floating point; for \<open>test_size = 0.2\<close> and any frame
  of fewer than \<open>2^48\<close> rows the rounded-up result is the same integer.)
\<close>

definition validate_shuffle_split :: "nat \<Rightarrow> rat \<Rightarrow> split_error + nat \<times> nat" where
  "validate_shuffle_split n_samples test_size =
     (if test_size \<le> 0 \<or> 1 \<le> test_size then Inl ValueError
      else
        let n_test = nat \<lceil>test_size * of_nat n_samples\<rceil>;
            n_train = n_samples - n_test
        in if n_train = 0 then Inl ValueError else Inr (n_train, n_test))"

text \<open>
  Modelled from the spec: the library's shuffle split, absent from the sources. The
  first \<open>n_test\<close> shuffled indices are the evaluation rows, the next \<open>n_train\<close> the
  training rows.
\<close>

definition split_indices ::
  "'g numpy_random \<Rightarrow> nat \<Rightarrow> rat \<Rightarrow> nat option \<Rightarrow> split_error + nat list \<times> nat list"
where
  "split_indices np n_samples test_size random_state =
     (case validate_shuffle_split n_samples test_size of
        Inl e \<Rightarrow> Inl e
      | Inr (n_train, n_test) \<Rightarrow>
          (let rng = check_random_state np random_state;
               perm = permutation np rng n_samples;
               ind_test = take n_test perm;
               ind_train = take n_train (drop n_test perm)
           in Inr (ind_train, ind_test)))"

text \<open>
  Modelled from the spec: selecting rows of a frame by position, absent from the sources.
  A position outside the frame raises.
\<close>

definition iloc :: "'row list \<Rightarrow> nat list \<Rightarrow> split_error + 'row list" where
  "iloc df ind =
     (if list_all (\<lambda>i. i < length df) ind then Inr (map (\<lambda>i. df ! i) ind)
      else Inl IndexError_iloc)"

text \<open>
  Modelled from the spec: the library's \<open>train_test_split\<close>, absent from the sources.
\<close>

definition train_test_split ::
  "'g numpy_random \<Rightarrow> 'row list \<Rightarrow> rat \<Rightarrow> nat option \<Rightarrow> split_error + 'row list \<times> 'row list"
where
  "train_test_split np df test_size random_state =
     (case split_indices np (length df) test_size random_state of
        Inl e \<Rightarrow> Inl e
      | Inr (ind_train, ind_test) \<Rightarrow>
          (case iloc df ind_train of
             Inl e \<Rightarrow> Inl e
           | Inr train \<Rightarrow>
               (case iloc df ind_test of
                  Inl e \<Rightarrow> Inl e
                | Inr evaluation \<Rightarrow> Inr (train, evaluation))))"

text \<open>The cell itself: the call with the notebook's arguments.\<close>

definition step8 :: "'g numpy_random \<Rightarrow> 'row list \<Rightarrow> split_error + 'row list \<times> 'row list" where
  "step8 np df = train_test_split np df (2 / 10) (Some 42)"

section \<open>Data preparation, step 9: the tuning data as JSON Lines\<close>

text \<open>
  \<^verbatim>\<open>
  cols = ['input_text_instruct','output_text']
  tune_jsonl = train[cols].to_json(orient="records", lines=True)
  with open(training_data_filename, "w") as f:
      f.write(tune_jsonl)
  \<close>
  The writer is pandas', and the repository has no reader: the file goes to the tuning
  pipeline. Both are modelled here, characters being bytes: one JSON object per line,
  its members in column order, every value a JSON string.
\<close>

definition LF :: char where "LF = CHR 0x0A"
definition dquote :: char where "dquote = CHR 0x22"
definition backslash :: char where "backslash = CHR 0x5C"

text \<open>
  Modelled from the spec: the escaping of a JSON string as the writer emits it, absent
  from the sources. Quote, backslash and slash get a backslash; the control characters
  with a short form use it; every other character below \<open>0x20\<close> or above \<open>0x7F\<close> is
  written as \<open>\u00XX\<close> with lower-case digits; the rest stand for themselves.
\<close>

definition hex_digit :: "nat \<Rightarrow> char" where
  "hex_digit n = ''0123456789abcdef'' ! (n mod 16)"

definition escape_char :: "char \<Rightarrow> string" where
  "escape_char c =
     (let n = of_char c :: nat in
      if c = dquote then [backslash, dquote]
      else if c = backslash then [backslash, backslash]
      else if c = CHR ''/'' then [backslash, CHR ''/'']
      else if n = 8 then [backslash, CHR ''b'']
      else if n = 12 then [backslash, CHR ''f'']
      else if n = 10 then [backslash, CHR ''n'']
      else if n = 13 then [backslash, CHR ''r'']
      else if n = 9 then [backslash, CHR ''t'']
      else if n < 32 \<or> 127 < n
        then [backslash, CHR ''u'', CHR ''0'', CHR ''0'', hex_digit (n div 16), hex_digit (n mod 16)]
      else [c])"

definition encode_string :: "string \<Rightarrow> string" where
  "encode_string s = dquote # concat (map escape_char s) @ [dquote]"

text \<open>
  Modelled from the spec: a row's object and the file, absent from the sources. Each
  line is \<open>{"column":"value",...}\<close> followed by a line feed.
\<close>

definition member_json :: "string \<times> string \<Rightarrow> string" where
  "member_json kv = encode_string (fst kv) @ CHR '':'' # encode_string (snd kv)"

fun members_json :: "(string \<times> string) list \<Rightarrow> string" where
  "members_json [] = []"
| "members_json [kv] = member_json kv"
| "members_json (kv # kvs) = member_json kv @ CHR '','' # members_json kvs"

definition object_json :: "(string \<times> string) list \<Rightarrow> string" where
  "object_json kvs = CHR ''{'' # members_json kvs @ ''}''"

definition to_json_lines :: "string list \<Rightarrow> string list list \<Rightarrow> string" where
  "to_json_lines columns rows_values =
     concat (map (\<lambda>vals. object_json (zip columns vals) @ [LF]) rows_values)"

record tuning_row =
  row_input_text_instruct :: string
  row_output_text :: string

definition cols :: "string list" where
  "cols = [''input_text_instruct'', ''output_text'']"

definition tune_jsonl :: "tuning_row list \<Rightarrow> string" where
  "tune_jsonl train =
     to_json_lines cols (map (\<lambda>r. [row_input_text_instruct r, row_output_text r]) train)"

text \<open>
  Modelled from the spec: reading a JSON string back, absent from the sources. One
  character is decoded at a time: an escape after a backslash, a \<open>\uXXXX\<close> escape of a
  value below 256, or a character that stands for itself; a raw control character is
  refused.
\<close>

definition hex_value :: "char \<Rightarrow> nat option" where
  "hex_value c =
     (let n = of_char c :: nat in
      if 48 \<le> n \<and> n \<le> 57 then Some (n - 48)
      else if 97 \<le> n \<and> n \<le> 102 then Some (n - 87)
      else if 65 \<le> n \<and> n \<le> 70 then Some (n - 55)
      else None)"

definition hex4 :: "char \<Rightarrow> char \<Rightarrow> char \<Rightarrow> char \<Rightarrow> nat option" where
  "hex4 h1 h2 h3 h4 =
     (case (hex_value h1, hex_value h2, hex_value h3, hex_value h4) of
        (Some a, Some b, Some c, Some d) \<Rightarrow> Some (((a * 16 + b) * 16 + c) * 16 + d)
      | _ \<Rightarrow> None)"

definition unescape :: "char \<Rightarrow> char option" where
  "unescape e =
     (if e = dquote then Some dquote
      else if e = backslash then Some backslash
      else if e = CHR ''/'' then Some (CHR ''/'')
      else if e = CHR ''b'' then Some (char_of (8::nat))
      else if e = CHR ''f'' then Some (char_of (12::nat))
      else if e = CHR ''n'' then Some (char_of (10::nat))
      else if e = CHR ''r'' then Some (char_of (13::nat))
      else if e = CHR ''t'' then Some (char_of (9::nat))
      else None)"

fun next_char :: "string \<Rightarrow> (char \<times> string) option" where
  "next_char [] = None"
| "next_char (c # cs) =
     (if c = backslash then
        (case cs of
           [] \<Rightarrow> None
         | e # cs1 \<Rightarrow>
             if e = CHR ''u'' then
               (case cs1 of
                  h1 # h2 # h3 # h4 # cs2 \<Rightarrow>
                    (case hex4 h1 h2 h3 h4 of
                       None \<Rightarrow> None
                     | Some n \<Rightarrow> if n < 256 then Some (char_of n, cs2) else None)
                | _ \<Rightarrow> None)
             else (case unescape e of None \<Rightarrow> None | Some ch \<Rightarrow> Some (ch, cs1)))
      else if (of_char c :: nat) < 32 then None
      else Some (c, cs))"

lemma next_char_shorter: "next_char s = Some (ch, r) \<Longrightarrow> length r < length s"
  by (cases s) (auto split: if_splits list.splits option.splits)

function parse_chars :: "string \<Rightarrow> (string \<times> string) option" where
  "parse_chars [] = None"
| "parse_chars (c # cs) =
     (if c = dquote then Some ([], cs)
      else (case next_char (c # cs) of
              None \<Rightarrow> None
            | Some (ch, r) \<Rightarrow>
                (case parse_chars r of
                   None \<Rightarrow> None
                 | Some (v, r') \<Rightarrow> Some (ch # v, r'))))"
  by pat_completeness auto
termination
  by (relation "measure length") (auto dest!: next_char_shorter simp del: next_char.simps)

definition parse_string :: "string \<Rightarrow> (string \<times> string) option" where
  "parse_string s =
     (case s of [] \<Rightarrow> None | c # cs \<Rightarrow> if c = dquote then parse_chars cs else None)"

lemma parse_chars_shorter: "parse_chars s = Some (v, r) \<Longrightarrow> length r < length s"
proof (induction s arbitrary: v r rule: parse_chars.induct)
  case 1
  then show ?case by simp
next
  case (2 c cs)
  show ?case
  proof (cases "c = dquote")
    case True
    with 2 show ?thesis by simp
  next
    case False
    with "2.prems" obtain ch r1 v1 where n: "next_char (c # cs) = Some (ch, r1)"
      and p: "parse_chars r1 = Some (v1, r)"
      by (auto split: option.splits)
    from "2.IH" [OF False n refl p] next_char_shorter [OF n] show ?thesis by simp
  qed
qed

lemma parse_string_shorter: "parse_string s = Some (v, r) \<Longrightarrow> length r < length s"
  by (cases s) (auto simp: parse_string_def dest: parse_chars_shorter split: if_splits)

text \<open>
  Modelled from the spec: reading an object, a line and the file back, absent from the
  sources. The members of an object are \<open>"key":"value"\<close> separated by commas; the file
  is cut at line feeds and every line must be one object.
\<close>

function parse_members :: "string \<Rightarrow> ((string \<times> string) list \<times> string) option" where
  "parse_members s =
     (case parse_string s of
        None \<Rightarrow> None
      | Some (k, r1) \<Rightarrow>
          (case r1 of
             [] \<Rightarrow> None
           | c1 # r2 \<Rightarrow>
               if c1 \<noteq> CHR '':'' then None
               else
                 (case parse_string r2 of
                    None \<Rightarrow> None
                  | Some (v, r3) \<Rightarrow>
                      (case r3 of
                         [] \<Rightarrow> None
                       | c3 # r4 \<Rightarrow>
                           if c3 = CHR ''}'' then Some ([(k, v)], r4)
                           else if c3 = CHR '','' then
                             (case parse_members r4 of
                                None \<Rightarrow> None
                              | Some (kvs, r5) \<Rightarrow> Some ((k, v) # kvs, r5))
                           else None))))"
  by pat_completeness auto
termination
  by (relation "measure length") (auto dest!: parse_string_shorter)

declare parse_members.simps [simp del]

definition parse_object :: "string \<Rightarrow> ((string \<times> string) list \<times> string) option" where
  "parse_object s =
     (case s of
        [] \<Rightarrow> None
      | c # r \<Rightarrow>
          if c \<noteq> CHR ''{'' then None
          else (case r of
                  [] \<Rightarrow> None
                | c' # r' \<Rightarrow> if c' = CHR ''}'' then Some ([], r') else parse_members r))"

definition parse_line :: "string \<Rightarrow> (string \<times> string) list option" where
  "parse_line l =
     (case parse_object l of
        None \<Rightarrow> None
      | Some (kvs, rest) \<Rightarrow> if rest = [] then Some kvs else None)"

fun split_lines_acc :: "string \<Rightarrow> string \<Rightarrow> string list" where
  "split_lines_acc acc [] = (if acc = [] then [] else [rev acc])"
| "split_lines_acc acc (c # cs) =
     (if c = LF then rev acc # split_lines_acc [] cs else split_lines_acc (c # acc) cs)"

definition read_json_lines :: "string \<Rightarrow> (string \<times> string) list list option" where
  "read_json_lines text = those (map parse_line (split_lines_acc [] text))"

definition row_of_object :: "(string \<times> string) list \<Rightarrow> tuning_row option" where
  "row_of_object kvs =
     (case (map_of kvs ''input_text_instruct'', map_of kvs ''output_text'') of
        (Some i, Some out) \<Rightarrow> Some \<lparr>row_input_text_instruct = i, row_output_text = out\<rparr>
      | _ \<Rightarrow> None)"

definition read_tuning_rows :: "string \<Rightarrow> tuning_row list option" where
  "read_tuning_rows text =
     (case read_json_lines text of
        None \<Rightarrow> None
      | Some objects \<Rightarrow> those (map row_of_object objects))"

section \<open>Concrete inputs\<close>

text \<open>
  A hosting service with three endpoints, of which \<open>b\<close> is down; a response shaped like
  the service's own; a warehouse whose full table is too large to load; a generator whose
  permutation for seed 42 is the reversed index sequence.
\<close>

definition demo_service :: "(string, string, string) service" where
  "demo_service =
     \<lparr>get_tuned_model = (\<lambda>name. Inr name),
      predict = (\<lambda>m p. if m = ''b'' then Inl ''unavailable'' else Inr (m @ '':'' @ p))\<rparr>"

definition demo_response :: pyval where
  "demo_response =
     PyList [PyList [PyDict
       [(''content'', PyStr ''Use pandas.read_csv.''),
        (''citationMetadata'', PyDict [(''citations'', PyList [])]),
        (''safetyAttributes'',
           PyDict [(''blocked'', PyBool True), (''categories'', PyList []),
                   (''scores'', PyList [])])]]]"

definition demo_warehouse :: "(string, string list) warehouse" where
  "demo_warehouse =
     \<lparr>query = (\<lambda>sql. Inr sql),
      to_pandas = (\<lambda>job. if job = QUERY_ALL
                         then Inl (OversizedResultError ''403 Response too large to return'')
                         else Inr [''row 1'', ''row 2''])\<rparr>"

text \<open>A warehouse client on a machine too small for any result.\<close>

definition demo_small_memory :: "(string, string list) warehouse" where
  "demo_small_memory =
     \<lparr>query = (\<lambda>sql. Inr sql),
      to_pandas = (\<lambda>job. Inl (OversizedResultError ''403 Response too large to return''))\<rparr>"

definition demo_numpy :: "nat numpy_random" where
  "demo_numpy =
     \<lparr>RandomState = (\<lambda>seed. seed), global_random_state = 0,
      permutation = (\<lambda>g n. if g = 42 then rev [0..<n] else [0..<n])\<rparr>"

section \<open>Properties of the dispatch\<close>




text \<open>
  C1. A dispatch on an empty registry ends with \<open>EmptyRegistry\<close>, whatever the service
  and the draw, and leaves the state as it was: the log of calls to the service has not
  grown, so neither the endpoint lookup nor a prediction was issued. The selection alone
  already raises.
\<close>

theorem dispatch_empty_registry:
  assumes "list_tuned_models s = []"
  shows "dispatch (svc :: ('m, 'r, 'e) service) i PROMPT s = (Inl EmptyRegistry, s)
       \<and> calls (snd (dispatch svc i PROMPT s)) = calls s
       \<and> (choice i (list_tuned_models s) :: 'e error + string) = Inl EmptyRegistry"
  using assms by (simp add: dispatch_def choice_def)

theorem dispatch_empty_registry_witness:
  "dispatch demo_service 0 ''How?'' \<lparr>list_tuned_models = [], calls = []\<rparr>
     = (Inl EmptyRegistry, \<lparr>list_tuned_models = [], calls = []\<rparr>)"
  using dispatch_empty_registry
          [of "\<lparr>list_tuned_models = [], calls = []\<rparr>" demo_service 0 "''How?''"]
  by simp

subsection \<open>Uniform and independent selection\<close>








subsection \<open>Failure and success of the prediction call\<close>

text \<open>
  C4. When the prediction call of the selected endpoint raises \<open>e\<close>, the dispatch ends
  with that same \<open>e\<close> as \<open>UpstreamError e\<close>. The calls it issued are the lookup of the
  selected endpoint and the one prediction that failed, which is the last entry of the
  log: nothing is sent again, and nothing is sent to another endpoint.
\<close>

theorem dispatch_upstream_error:
  assumes "(choice i (list_tuned_models s) :: 'e error + string) = Inr tuned_model_select"
    and "get_tuned_model (svc :: ('m, 'r, 'e) service) tuned_model_select = Inr deployed_model"
    and "predict svc deployed_model PROMPT = Inl e"
  shows "fst (dispatch svc i PROMPT s) = Inl (UpstreamError e)
       \<and> calls (snd (dispatch svc i PROMPT s))
           = calls s @ [GetTunedModel tuned_model_select, Predict tuned_model_select PROMPT]
       \<and> list_tuned_models (snd (dispatch svc i PROMPT s)) = list_tuned_models s"
  using assms by (simp add: dispatch_def Let_def)

theorem dispatch_upstream_error_witness:
  "fst (dispatch demo_service 1 ''How?'' \<lparr>list_tuned_models = [''a'', ''b'', ''c''], calls = []\<rparr>)
     = Inl (UpstreamError ''unavailable'')
   \<and> calls (snd (dispatch demo_service 1 ''How?''
                   \<lparr>list_tuned_models = [''a'', ''b'', ''c''], calls = []\<rparr>))
     = [GetTunedModel ''b'', Predict ''b'' ''How?'']"
proof -
  let ?s = "\<lparr>list_tuned_models = [''a'', ''b'', ''c''], calls = []\<rparr>"
  have 1: "choice 1 (list_tuned_models ?s) = (Inr ''b'' :: string error + string)"
    by (simp add: choice_def)
  have 2: "get_tuned_model demo_service ''b'' = Inr ''b''"
    by (simp add: demo_service_def)
  have 3: "predict demo_service ''b'' ''How?'' = Inl ''unavailable''"
    by (simp add: demo_service_def)
  show ?thesis
    using dispatch_upstream_error [OF 1 2 3] by simp
qed

text \<open>
  C5. When the prediction call of the selected endpoint returns \<open>response\<close>, the dispatch
  returns exactly \<open>response\<close>. The state afterwards is the state before with the two
  calls added to the log; the registry \<open>list_tuned_models\<close> is the same sequence.
\<close>

theorem dispatch_success:
  assumes "(choice i (list_tuned_models s) :: 'e error + string) = Inr tuned_model_select"
    and "get_tuned_model (svc :: ('m, 'r, 'e) service) tuned_model_select = Inr deployed_model"
    and "predict svc deployed_model PROMPT = Inr response"
  shows "dispatch svc i PROMPT s
           = (Inr response,
              s\<lparr>calls := calls s @ [GetTunedModel tuned_model_select,
                                     Predict tuned_model_select PROMPT]\<rparr>)
       \<and> list_tuned_models (snd (dispatch svc i PROMPT s)) = list_tuned_models s"
  using assms by (simp add: dispatch_def Let_def)

theorem dispatch_success_witness:
  "dispatch demo_service 2 ''How?'' \<lparr>list_tuned_models = [''a'', ''b'', ''c''], calls = []\<rparr>
     = (Inr ''c:How?'',
        \<lparr>list_tuned_models = [''a'', ''b'', ''c''],
         calls = [GetTunedModel ''c'', Predict ''c'' ''How?'']\<rparr>)"
proof -
  let ?s = "\<lparr>list_tuned_models = [''a'', ''b'', ''c''], calls = []\<rparr>"
  have 1: "choice 2 (list_tuned_models ?s) = (Inr ''c'' :: string error + string)"
    by (simp add: choice_def)
  have 2: "get_tuned_model demo_service ''c'' = Inr ''c''"
    by (simp add: demo_service_def)
  have 3: "predict demo_service ''c'' ''How?'' = Inr ''c:How?''"
    by (simp add: demo_service_def)
  show ?thesis
    using dispatch_success [OF 1 2 3] by simp
qed

section \<open>Properties of the prompt rendering\<close>

text \<open>
  C3, as stated, fails: neither rendering is the instruction, a line feed and the
  question. On the instruction and question of the specification's scenario both differ
  from that text.
\<close>

theorem prompt_template_counterexample:
  "render_PROMPT ''Answer the question.'' ''What is 2+2?''
     \<noteq> ''Answer the question.'' @ [CHR 0x0A] @ ''What is 2+2?''
   \<and> input_text_instruct ''Answer the question.'' ''What is 2+2?''
     \<noteq> ''Answer the question.'' @ [CHR 0x0A] @ ''What is 2+2?''"
  by (simp add: render_PROMPT_def input_text_instruct_def)

text \<open>
  C3, amended. The separator that both renderings put between the instruction and the
  question is one space. The tuning data is exactly the instruction template, the space
  and the question; the serving prompt contains the instruction, the space and the
  question in one piece. The line feed before the question is not added by the
  rendering: it is the last character of each notebook's instruction constant.
\<close>

theorem prompt_template:
  "input_text_instruct template QUESTION = template @ '' '' @ QUESTION
   \<and> (\<exists>before after.
         render_PROMPT instruction QUESTION = before @ (instruction @ '' '' @ QUESTION) @ after)
   \<and> last INSTRUCTION_TEMPLATE = CHR 0x0A
   \<and> last INSTRUCTION = CHR 0x0A"
proof (intro conjI)
  show "input_text_instruct template QUESTION = template @ '' '' @ QUESTION"
    by (simp add: input_text_instruct_def)
  have "render_PROMPT instruction QUESTION
          = [CHR 0x0A] @ (instruction @ '' '' @ QUESTION) @ [CHR 0x0A]"
    by (simp add: render_PROMPT_def)
  then show "\<exists>before after.
         render_PROMPT instruction QUESTION = before @ (instruction @ '' '' @ QUESTION) @ after"
    by blast
  show "last INSTRUCTION_TEMPLATE = CHR 0x0A"
    by (simp add: INSTRUCTION_TEMPLATE_def)
  show "last INSTRUCTION = CHR 0x0A"
    by (simp add: INSTRUCTION_def)
qed

text \<open>
  C9. Rendering is a function of the instruction and the question alone: two renderings
  of equal instructions and equal questions are the same string, character by character,
  for the serving prompt and for the tuning data alike.
\<close>

theorem render_deterministic:
  assumes "instruction1 = instruction2" and "QUESTION1 = QUESTION2"
  shows "render_PROMPT instruction1 QUESTION1 = render_PROMPT instruction2 QUESTION2
       \<and> input_text_instruct instruction1 QUESTION1 = input_text_instruct instruction2 QUESTION2"
  using assms by simp

theorem render_deterministic_witness:
  "render_PROMPT (''Answer '' @ ''the question.'') ''What is 2+2?''
     = render_PROMPT ''Answer the question.'' (''What is '' @ ''2+2?'')
   \<and> input_text_instruct (''Answer '' @ ''the question.'') ''What is 2+2?''
     = input_text_instruct ''Answer the question.'' (''What is '' @ ''2+2?'')"
proof -
  have 1: "''Answer '' @ ''the question.'' = ''Answer the question.''" by simp
  have 2: "''What is 2+2?'' = ''What is '' @ ''2+2?''" by simp
  show ?thesis
    by (rule render_deterministic [OF 1 2])
qed

section \<open>Properties of the safety and citation accessors\<close>

lemma getitems_append:
  "getitems v (ks @ ks') = (case getitems v ks of Inl e \<Rightarrow> Inl e | Inr w \<Rightarrow> getitems w ks')"
  by (induction ks arbitrary: v) (auto split: sum.splits)

text \<open>
  C8. For a response whose first prediction is a dictionary holding \<open>b\<close> under
  \<open>safetyAttributes\<close>, \<open>blocked\<close> and \<open>cs\<close> under \<open>citationMetadata\<close>, \<open>citations\<close>,
  the accessor \<open>blocked\<close> returns \<open>b\<close> itself (so \<open>True\<close> when the flag is \<open>True\<close>),
  \<open>safety_attributes\<close> the whole safety dictionary, and \<open>citation\<close> returns \<open>cs\<close>
  itself, an empty list included. Whatever is stored comes back as it is.
\<close>

theorem accessors_pass_through:
  assumes "getitems prediction_response [Idx 0, Idx 0] = Inr (PyDict prediction)"
    and "map_of prediction ''safetyAttributes'' = Some (PyDict sa)"
    and "map_of sa ''blocked'' = Some b"
    and "map_of prediction ''citationMetadata'' = Some (PyDict cm)"
    and "map_of cm ''citations'' = Some cs"
  shows "blocked prediction_response = Inr b
       \<and> safety_attributes prediction_response = Inr (PyDict sa)
       \<and> citation prediction_response = Inr cs"
proof -
  have s: "getitems prediction_response ([Idx 0, Idx 0] @ ks) = getitems (PyDict prediction) ks"
    for ks
    using assms(1) by (simp only: getitems_append sum.case)
  have "blocked prediction_response
          = getitems (PyDict prediction) [Key ''safetyAttributes'', Key ''blocked'']"
    unfolding blocked_def using s [of "[Key ''safetyAttributes'', Key ''blocked'']"] by simp
  moreover have "safety_attributes prediction_response
          = getitems (PyDict prediction) [Key ''safetyAttributes'']"
    unfolding safety_attributes_def using s [of "[Key ''safetyAttributes'']"] by simp
  moreover have "citation prediction_response
          = getitems (PyDict prediction) [Key ''citationMetadata'', Key ''citations'']"
    unfolding citation_def using s [of "[Key ''citationMetadata'', Key ''citations'']"] by simp
  ultimately show ?thesis
    using assms(2-5) by simp
qed

theorem accessors_pass_through_witness:
  "blocked demo_response = Inr (PyBool True)
   \<and> safety_attributes demo_response
       = Inr (PyDict [(''blocked'', PyBool True), (''categories'', PyList []),
                      (''scores'', PyList [])])
   \<and> citation demo_response = Inr (PyList [])"
proof -
  let ?sa = "[(''blocked'', PyBool True), (''categories'', PyList []), (''scores'', PyList [])]"
  let ?cm = "[(''citations'', PyList [])]"
  let ?p = "[(''content'', PyStr ''Use pandas.read_csv.''),
             (''citationMetadata'', PyDict ?cm), (''safetyAttributes'', PyDict ?sa)]"
  have 1: "getitems demo_response [Idx 0, Idx 0] = Inr (PyDict ?p)"
    by (simp add: demo_response_def)
  have 2: "map_of ?p ''safetyAttributes'' = Some (PyDict ?sa)" by simp
  have 3: "map_of ?sa ''blocked'' = Some (PyBool True)" by simp
  have 4: "map_of ?p ''citationMetadata'' = Some (PyDict ?cm)" by simp
  have 5: "map_of ?cm ''citations'' = Some (PyList [])" by simp
  show ?thesis
    using accessors_pass_through [OF 1 2 3 4 5] by simp
qed

section \<open>Properties of the oversized load\<close>

lemma step5_oversized:
  assumes "query bq_client QUERY_ALL = Inr job"
    and "to_pandas bq_client job = Inl (OversizedResultError msg)"
  shows "step5 bq_client s
           = (None, s\<lparr>query_job := job,
                       stdout := stdout s @
                         [''The DataFrame is too large to load into memory. '' @ msg]\<rparr>)"
  using assms by (simp add: step5_def Let_def)

lemma step5_oversized_continues:
  assumes "query bq_client QUERY_ALL = Inr job"
    and "to_pandas bq_client job = Inl (OversizedResultError msg)"
  shows "run_cells (step5 bq_client # cells) s = run_cells cells (snd (step5 bq_client s))"
  by (simp add: step5_oversized [OF assms])

lemma step4_2_oversized:
  assumes "query bq_client INSPECT_QUERY = Inr job"
    and "to_pandas bq_client job = Inl (OversizedResultError msg)"
  shows "step4_2 bq_client s = (Some (OversizedResultError msg), s\<lparr>query_job := job\<rparr>)"
  using assms by (simp add: step4_2_def Let_def)

lemma step6_oversized:
  assumes "query bq_client QUERY = Inr job"
    and "to_pandas bq_client job = Inl (OversizedResultError msg)"
  shows "step6 bq_client s = (Some (OversizedResultError msg), s\<lparr>query_job := job\<rparr>)"
  using assms by (simp add: step6_def Let_def)

text \<open>
  C7, as stated, fails: only the load of step 5 sits in a \<open>try\<close>. When the result of the
  query of step 6 is too large to load, the same error is caught by nothing, the cell
  ends with it and the run stops there.
\<close>

theorem oversized_result_caught_counterexample:
  "run_cells [step6 demo_small_memory, step5 demo_small_memory]
     \<lparr>query_job = QUERY_ALL, stack_overflow_df = [''old row''], stdout = []\<rparr>
     = (Some (OversizedResultError ''403 Response too large to return''),
        \<lparr>query_job = QUERY, stack_overflow_df = [''old row''], stdout = []\<rparr>)"
  by (simp add: step6_def demo_small_memory_def)

text \<open>
  C7, amended. Let loading the result of an accepted query raise the oversized-result
  error. If the query is the one of step 5, the cell ends normally: the error is caught,
  one line reporting it goes to the output, the variables are as they were just before
  the load (\<open>stack_overflow_df\<close> keeps the frame it held), and the run goes on with the
  cells that follow, from that state. If the query is the one of step 4.2 or of step 6,
  whose loads are outside any \<open>try\<close>, the cell ends with the error, nothing is printed,
  the variables are as they were just before the load, and no later cell runs.
\<close>

theorem oversized_result_caught:
  assumes "to_pandas bq_client job = Inl (OversizedResultError msg)"
  shows "(query bq_client QUERY_ALL = Inr job \<longrightarrow>
            step5 bq_client s
              = (None, s\<lparr>query_job := job,
                          stdout := stdout s @
                            [''The DataFrame is too large to load into memory. '' @ msg]\<rparr>)
          \<and> stack_overflow_df (snd (step5 bq_client s)) = stack_overflow_df s
          \<and> run_cells (step5 bq_client # cells) s
              = run_cells cells (snd (step5 bq_client s)))
       \<and> (query bq_client INSPECT_QUERY = Inr job \<longrightarrow>
            step4_2 bq_client s = (Some (OversizedResultError msg), s\<lparr>query_job := job\<rparr>)
          \<and> run_cells (step4_2 bq_client # cells) s
              = (Some (OversizedResultError msg), s\<lparr>query_job := job\<rparr>))
       \<and> (query bq_client QUERY = Inr job \<longrightarrow>
            step6 bq_client s = (Some (OversizedResultError msg), s\<lparr>query_job := job\<rparr>)
          \<and> run_cells (step6 bq_client # cells) s
              = (Some (OversizedResultError msg), s\<lparr>query_job := job\<rparr>))"
proof (intro conjI impI)
  assume q: "query bq_client QUERY_ALL = Inr job"
  show "step5 bq_client s
          = (None, s\<lparr>query_job := job,
                      stdout := stdout s @
                        [''The DataFrame is too large to load into memory. '' @ msg]\<rparr>)"
    using q assms by (rule step5_oversized)
  then show "stack_overflow_df (snd (step5 bq_client s)) = stack_overflow_df s"
    by simp
  show "run_cells (step5 bq_client # cells) s = run_cells cells (snd (step5 bq_client s))"
    using q assms by (rule step5_oversized_continues)
next
  assume q: "query bq_client INSPECT_QUERY = Inr job"
  show a: "step4_2 bq_client s = (Some (OversizedResultError msg), s\<lparr>query_job := job\<rparr>)"
    using q assms by (rule step4_2_oversized)
  show "run_cells (step4_2 bq_client # cells) s
          = (Some (OversizedResultError msg), s\<lparr>query_job := job\<rparr>)"
    by (simp add: a)
next
  assume q: "query bq_client QUERY = Inr job"
  show a: "step6 bq_client s = (Some (OversizedResultError msg), s\<lparr>query_job := job\<rparr>)"
    using q assms by (rule step6_oversized)
  show "run_cells (step6 bq_client # cells) s
          = (Some (OversizedResultError msg), s\<lparr>query_job := job\<rparr>)"
    by (simp add: a)
qed

theorem oversized_result_caught_witness:
  "step5 demo_warehouse \<lparr>query_job = ''inspect'', stack_overflow_df = [''old row''], stdout = []\<rparr>
     = (None, \<lparr>query_job = QUERY_ALL, stack_overflow_df = [''old row''],
               stdout = [''The DataFrame is too large to load into memory. ''
                          @ ''403 Response too large to return'']\<rparr>)
   \<and> step4_2 demo_small_memory
         \<lparr>query_job = ''none yet'', stack_overflow_df = [], stdout = []\<rparr>
     = (Some (OversizedResultError ''403 Response too large to return''),
        \<lparr>query_job = INSPECT_QUERY, stack_overflow_df = [], stdout = []\<rparr>)
   \<and> step6 demo_small_memory
         \<lparr>query_job = ''inspect'', stack_overflow_df = [''old row''], stdout = []\<rparr>
     = (Some (OversizedResultError ''403 Response too large to return''),
        \<lparr>query_job = QUERY, stack_overflow_df = [''old row''], stdout = []\<rparr>)"
proof -
  let ?s = "\<lparr>query_job = ''inspect'', stack_overflow_df = [''old row''], stdout = []\<rparr>"
  let ?t = "\<lparr>query_job = ''none yet'', stack_overflow_df = ([] :: string list), stdout = []\<rparr>"
  have q5: "query demo_warehouse QUERY_ALL = Inr QUERY_ALL"
    by (simp add: demo_warehouse_def)
  have l5: "to_pandas demo_warehouse QUERY_ALL
             = Inl (OversizedResultError ''403 Response too large to return'')"
    by (simp add: demo_warehouse_def)
  have q4: "query demo_small_memory INSPECT_QUERY = Inr INSPECT_QUERY"
    by (simp add: demo_small_memory_def)
  have l4: "to_pandas demo_small_memory INSPECT_QUERY
             = Inl (OversizedResultError ''403 Response too large to return'')"
    by (simp add: demo_small_memory_def)
  have q6: "query demo_small_memory QUERY = Inr QUERY"
    by (simp add: demo_small_memory_def)
  have l6: "to_pandas demo_small_memory QUERY
             = Inl (OversizedResultError ''403 Response too large to return'')"
    by (simp add: demo_small_memory_def)
  have a: "step5 demo_warehouse ?s
     = (None, \<lparr>query_job = QUERY_ALL, stack_overflow_df = [''old row''],
               stdout = [''The DataFrame is too large to load into memory. ''
                          @ ''403 Response too large to return'']\<rparr>)"
    using oversized_result_caught [OF l5, where s = ?s] q5 by simp
  have b: "step4_2 demo_small_memory ?t
     = (Some (OversizedResultError ''403 Response too large to return''),
        \<lparr>query_job = INSPECT_QUERY, stack_overflow_df = [], stdout = []\<rparr>)"
    using oversized_result_caught [OF l4, where s = ?t] q4 by simp
  have c: "step6 demo_small_memory ?s
     = (Some (OversizedResultError ''403 Response too large to return''),
        \<lparr>query_job = QUERY, stack_overflow_df = [''old row''], stdout = []\<rparr>)"
    using oversized_result_caught [OF l6, where s = ?s] q6 by simp
  from a b c show ?thesis by (intro conjI)
qed

section \<open>Properties of the split into training and evaluation rows\<close>

lemma n_test_fifth: "nat \<lceil>(2 / 10 :: rat) * of_nat n\<rceil> = (n + 4) div 5"
proof -
  have "(2 / 10 :: rat) * of_nat n = of_int (int n) / of_int 5" by simp
  then have "\<lceil>(2 / 10 :: rat) * of_nat n\<rceil> = - (- int n div 5)"
    by (simp only: ceiling_divide_eq_div)
  also have "\<dots> = (int n + 4) div 5" by presburger
  finally have "\<lceil>(2 / 10 :: rat) * of_nat n\<rceil> = (int n + 4) div 5" .
  then show ?thesis by (simp add: nat_div_distrib nat_add_distrib)
qed

lemma validate_fifth:
  "2 \<le> n \<Longrightarrow> validate_shuffle_split n (2 / 10) = Inr (n - (n + 4) div 5, (n + 4) div 5)"
  unfolding validate_shuffle_split_def n_test_fifth Let_def
  by (auto simp: not_le)

lemma validate_small:
  "n < 2 \<Longrightarrow> validate_shuffle_split n (2 / 10) = Inl ValueError"
  unfolding validate_shuffle_split_def n_test_fifth Let_def
  by auto

lemmas validate_fifth' = validate_fifth [simplified]
lemmas validate_small' = validate_small [simplified]

lemma iloc_ok: "set ind \<subseteq> {0..<length df} \<Longrightarrow> iloc df ind = Inr (map (\<lambda>i. df ! i) ind)"
  by (auto simp: iloc_def list_all_iff)

lemma split_indices_seeded:
  "split_indices (np\<lparr>global_random_state := g\<rparr>) n test_size (Some seed)
     = split_indices np n test_size (Some seed)"
  by (cases "validate_shuffle_split n test_size")
     (auto simp: split_indices_def check_random_state_def)

text \<open>
  C10, as stated, fails on a frame of one row: a fifth of one row rounds up to the one
  row, the training part would be empty, and the split raises instead of returning two
  parts.
\<close>

theorem split_partitions_counterexample:
  "step8 demo_numpy [''only row''] = Inl ValueError"
  by (simp add: step8_def train_test_split_def split_indices_def validate_small')

lemma step8_seeded: "step8 (np\<lparr>global_random_state := g\<rparr>) df = step8 np df"
  by (simp add: step8_def train_test_split_def split_indices_seeded)

lemma split_too_small: "length df < 2 \<Longrightarrow> step8 np df = Inl ValueError"
  by (simp add: step8_def train_test_split_def split_indices_def validate_small')

lemma split_of_two_or_more:
  assumes rows: "2 \<le> length df"
    and perm: "mset (permutation np (RandomState np 42) (length df)) = mset [0..<length df]"
  shows "\<exists>ind_train ind_test.
           split_indices np (length df) (2 / 10) (Some 42) = Inr (ind_train, ind_test)
         \<and> step8 np df = Inr (map (\<lambda>i. df ! i) ind_train, map (\<lambda>i. df ! i) ind_test)
         \<and> distinct (ind_train @ ind_test)
         \<and> set ind_train \<union> set ind_test = {0..<length df}
         \<and> length ind_test = nat \<lceil>(2 / 10 :: rat) * of_nat (length df)\<rceil>
         \<and> length ind_test = (length df + 4) div 5
         \<and> length ind_train = length df - length ind_test
         \<and> mset (map (\<lambda>i. df ! i) ind_train) + mset (map (\<lambda>i. df ! i) ind_test) = mset df"
proof -
  define n where "n = length df"
  define p where "p = permutation np (RandomState np 42) n"
  define n_test where "n_test = (n + 4) div 5"
  define n_train where "n_train = n - n_test"
  define ind_test where "ind_test = take n_test p"
  define ind_train where "ind_train = take n_train (drop n_test p)"
  have mp: "mset p = mset [0..<n]" using perm by (simp add: p_def n_def)
  have "length p = length [0..<n]" using mp by (rule mset_eq_length)
  then have lp: "length p = n" by simp
  have "set p = set [0..<n]" using mp by (rule mset_eq_setD)
  then have sp: "set p = {0..<n}" by simp
  have dp: "distinct p" using mset_eq_imp_distinct_iff [OF mp] by simp
  have le: "n_test \<le> n" using rows by (simp add: n_test_def n_def)
  have full: "take n_train (drop n_test p) = drop n_test p"
    by (simp add: n_train_def lp)
  have app: "ind_test @ ind_train = p"
    by (simp add: ind_test_def ind_train_def full)
  have v: "validate_shuffle_split n (2 / 10) = Inr (n_train, n_test)"
    using rows unfolding n_train_def n_test_def n_def by (rule validate_fifth)
  have si: "split_indices np n (2 / 10) (Some 42) = Inr (ind_train, ind_test)"
    unfolding split_indices_def v check_random_state_def Let_def ind_test_def ind_train_def p_def
    by simp
  have "set ind_train \<subseteq> set p"
    unfolding ind_train_def full by (rule set_drop_subset)
  then have sub1: "set ind_train \<subseteq> {0..<length df}"
    unfolding sp n_def .
  have "set ind_test \<subseteq> set p"
    unfolding ind_test_def by (rule set_take_subset)
  then have sub2: "set ind_test \<subseteq> {0..<length df}"
    unfolding sp n_def .
  have st: "step8 np df = Inr (map (\<lambda>i. df ! i) ind_train, map (\<lambda>i. df ! i) ind_test)"
    using si by (simp add: step8_def train_test_split_def n_def iloc_ok [OF sub1] iloc_ok [OF sub2])
  have "distinct (ind_test @ ind_train)"
    using dp by (simp only: app)
  then have d: "distinct (ind_train @ ind_test)"
    by auto
  have u: "set ind_train \<union> set ind_test = {0..<length df}"
  proof -
    have "set (ind_test @ ind_train) = {0..<length df}"
      using sp by (simp only: app n_def)
    then show ?thesis by auto
  qed
  have lt: "length ind_test = (length df + 4) div 5"
    using le by (simp add: ind_test_def lp n_test_def n_def)
  have ltr: "length ind_train = length df - length ind_test"
    using lt by (simp add: ind_train_def lp n_train_def n_test_def n_def)
  have "mset (map (\<lambda>i. df ! i) ind_train) + mset (map (\<lambda>i. df ! i) ind_test)
          = mset (map (\<lambda>i. df ! i) (ind_test @ ind_train))"
    by simp
  also have "\<dots> = image_mset (\<lambda>i. df ! i) (mset [0..<n])"
    unfolding app by (simp only: mset_map mp)
  also have "\<dots> = mset (map (\<lambda>i. df ! i) [0..<length df])"
    by (simp add: n_def)
  also have "\<dots> = mset df" by (simp only: map_nth)
  finally have ms: "mset (map (\<lambda>i. df ! i) ind_train) + mset (map (\<lambda>i. df ! i) ind_test) = mset df" .
  have lc: "length ind_test = nat \<lceil>(2 / 10 :: rat) * of_nat (length df)\<rceil>"
    using lt by (simp only: n_test_fifth)
  show ?thesis
    apply (rule exI [of _ ind_train])
    apply (rule exI [of _ ind_test])
    apply (intro conjI)
    subgoal using si unfolding n_def .
    subgoal by (rule st)
    subgoal by (rule d)
    subgoal by (rule u)
    subgoal by (rule lc)
    subgoal by (rule lt)
    subgoal by (rule ltr)
    subgoal by (rule ms)
    done
qed

text \<open>
  C10, amended. On a frame of fewer than two rows (none, or one) the split raises
  \<open>ValueError\<close> and returns no parts. On a frame of at least two rows, given that the
  generator seeded with 42 yields a permutation of the row positions, the split returns
  training and evaluation rows selected by two index lists that share no position and
  together cover every position once; the evaluation part has \<open>\<lceil>0.2 * N\<rceil>\<close> rows,
  which is \<open>(N + 4) div 5\<close>, the training part the remaining ones, and the rows of both
  parts together are the rows of the frame. On every frame the outcome does not depend
  on the state of the process-wide generator: two runs on the same frame end the same
  way, with the same two parts.
\<close>

theorem split_partitions:
  "(length df < 2 \<longrightarrow> step8 np df = Inl ValueError)
   \<and> (2 \<le> length df
        \<and> mset (permutation np (RandomState np 42) (length df)) = mset [0..<length df] \<longrightarrow>
        (\<exists>ind_train ind_test.
           split_indices np (length df) (2 / 10) (Some 42) = Inr (ind_train, ind_test)
         \<and> step8 np df = Inr (map (\<lambda>i. df ! i) ind_train, map (\<lambda>i. df ! i) ind_test)
         \<and> distinct (ind_train @ ind_test)
         \<and> set ind_train \<union> set ind_test = {0..<length df}
         \<and> length ind_test = nat \<lceil>(2 / 10 :: rat) * of_nat (length df)\<rceil>
         \<and> length ind_test = (length df + 4) div 5
         \<and> length ind_train = length df - length ind_test
         \<and> mset (map (\<lambda>i. df ! i) ind_train) + mset (map (\<lambda>i. df ! i) ind_test) = mset df))
   \<and> step8 (np\<lparr>global_random_state := g\<rparr>) df = step8 np df"
proof (intro conjI impI)
  assume "length df < 2"
  then show "step8 np df = Inl ValueError"
    by (rule split_too_small)
next
  assume h: "2 \<le> length df
        \<and> mset (permutation np (RandomState np 42) (length df)) = mset [0..<length df]"
  show "\<exists>ind_train ind_test.
           split_indices np (length df) (2 / 10) (Some 42) = Inr (ind_train, ind_test)
         \<and> step8 np df = Inr (map (\<lambda>i. df ! i) ind_train, map (\<lambda>i. df ! i) ind_test)
         \<and> distinct (ind_train @ ind_test)
         \<and> set ind_train \<union> set ind_test = {0..<length df}
         \<and> length ind_test = nat \<lceil>(2 / 10 :: rat) * of_nat (length df)\<rceil>
         \<and> length ind_test = (length df + 4) div 5
         \<and> length ind_train = length df - length ind_test
         \<and> mset (map (\<lambda>i. df ! i) ind_train) + mset (map (\<lambda>i. df ! i) ind_test) = mset df"
    using conjunct1 [OF h] conjunct2 [OF h] by (rule split_of_two_or_more)
next
  show "step8 (np\<lparr>global_random_state := g\<rparr>) df = step8 np df"
    by (rule step8_seeded)
qed

theorem split_partitions_witness:
  "step8 demo_numpy ([] :: string list) = Inl ValueError
   \<and> step8 demo_numpy [''r0'', ''r1'', ''r2'', ''r3'', ''r4'', ''r5'']
     = Inr ([''r3'', ''r2'', ''r1'', ''r0''], [''r5'', ''r4''])"
proof -
  let ?df = "[''r0'', ''r1'', ''r2'', ''r3'', ''r4'', ''r5'']"
  have up: "[0..<6] = [0, 1, 2, 3, 4, 5::nat]" by (simp add: upt_rec)
  have p: "permutation demo_numpy (RandomState demo_numpy 42) (length ?df) = [5, 4, 3, 2, 1, 0]"
    by (simp add: demo_numpy_def up)
  have h: "2 \<le> length ?df
        \<and> mset (permutation demo_numpy (RandomState demo_numpy 42) (length ?df))
             = mset [0..<length ?df]"
    by (simp add: demo_numpy_def)
  have si: "split_indices demo_numpy (length ?df) (2 / 10) (Some 42) = Inr ([3, 2, 1, 0], [5, 4])"
    using p by (simp add: split_indices_def validate_fifth' check_random_state_def)
  note big = split_partitions [where df = ?df and np = demo_numpy and g = 0]
  from big h obtain ind_train ind_test where
    a: "split_indices demo_numpy (length ?df) (2 / 10) (Some 42) = Inr (ind_train, ind_test)"
    and b: "step8 demo_numpy ?df = Inr (map (\<lambda>i. ?df ! i) ind_train, map (\<lambda>i. ?df ! i) ind_test)"
    by blast
  from a si have "ind_train = [3, 2, 1, 0]" "ind_test = [5, 4]" by simp_all
  with b have six: "step8 demo_numpy ?df = Inr ([''r3'', ''r2'', ''r1'', ''r0''], [''r5'', ''r4''])"
    by simp
  have "length ([] :: string list) < 2" by simp
  with split_partitions [where df = "[] :: string list" and np = demo_numpy and g = 0]
  have none: "step8 demo_numpy ([] :: string list) = Inl ValueError"
    by blast
  from none six show ?thesis by (intro conjI)
qed

section \<open>Properties of the JSON Lines file\<close>

lemma less_16_cases:
  "k < 16 \<Longrightarrow> k \<in> {0, 1, 2, 3, 4, 5, 6, 7, 8, 9, 10, 11, 12, 13, 14, 15 :: nat}"
  by (simp only: insert_iff empty_iff) arith

lemma hex_value_hex_digit: "k < 16 \<Longrightarrow> hex_value (hex_digit k) = Some k"
proof -
  assume "k < 16"
  then have "k \<in> {0, 1, 2, 3, 4, 5, 6, 7, 8, 9, 10, 11, 12, 13, 14, 15}"
    by (rule less_16_cases)
  then show ?thesis
    by (auto simp: hex_digit_def hex_value_def)
qed

lemma hex_value_zero: "hex_value (CHR ''0'') = Some 0"
  by (simp add: hex_value_def)

lemma hex4_byte:
  assumes "n < 256"
  shows "hex4 (CHR ''0'') (CHR ''0'') (hex_digit (n div 16)) (hex_digit (n mod 16)) = Some n"
proof -
  have "n div 16 < 16" using assms by simp
  then have a: "hex_value (hex_digit (n div 16)) = Some (n div 16)"
    by (rule hex_value_hex_digit)
  have b: "hex_value (hex_digit (n mod 16)) = Some (n mod 16)"
    by (rule hex_value_hex_digit) simp
  show ?thesis
    by (simp add: hex4_def hex_value_zero a b)
qed

lemma char_of_eq: "of_char c = (n::nat) \<Longrightarrow> char_of n = c"
  by (metis char_of_char)

lemma next_char_escape: "next_char (escape_char c @ rest) = Some (c, rest)"
proof -
  define n :: nat where "n = of_char c"
  have n256: "n < 256" by (simp add: n_def)
  have cn: "char_of n = c" by (simp add: n_def)
  consider (dq) "c = dquote" | (bs) "c = backslash" | (sl) "c = CHR ''/''"
    | (b) "n = 8" | (f) "n = 12" | (nl) "n = 10" | (r) "n = 13" | (t) "n = 9"
    | (u) "c \<noteq> dquote" "c \<noteq> backslash" "c \<noteq> CHR ''/''" "n \<noteq> 8" "n \<noteq> 12" "n \<noteq> 10" "n \<noteq> 13"
        "n \<noteq> 9" "n < 32 \<or> 127 < n"
    | (lit) "c \<noteq> dquote" "c \<noteq> backslash" "c \<noteq> CHR ''/''" "32 \<le> n" "n \<le> 127"
    by linarith
  then show ?thesis
  proof cases
    case dq
    then show ?thesis
      by (simp add: escape_char_def unescape_def dquote_def backslash_def)
  next
    case bs
    then show ?thesis
      by (simp add: escape_char_def unescape_def dquote_def backslash_def)
  next
    case sl
    then show ?thesis
      by (simp add: escape_char_def unescape_def dquote_def backslash_def)
  next
    case b
    then have "c = char_of (8::nat)" using cn by simp
    then show ?thesis
      by (simp add: escape_char_def unescape_def dquote_def backslash_def)
  next
    case f
    then have "c = char_of (12::nat)" using cn by simp
    then show ?thesis
      by (simp add: escape_char_def unescape_def dquote_def backslash_def)
  next
    case nl
    then have "c = char_of (10::nat)" using cn by simp
    then show ?thesis
      by (simp add: escape_char_def unescape_def dquote_def backslash_def)
  next
    case r
    then have "c = char_of (13::nat)" using cn by simp
    then show ?thesis
      by (simp add: escape_char_def unescape_def dquote_def backslash_def)
  next
    case t
    then have "c = char_of (9::nat)" using cn by simp
    then show ?thesis
      by (simp add: escape_char_def unescape_def dquote_def backslash_def)
  next
    case u
    then have e: "escape_char c
        = [backslash, CHR ''u'', CHR ''0'', CHR ''0'', hex_digit (n div 16), hex_digit (n mod 16)]"
      by (simp add: escape_char_def n_def [symmetric])
    show ?thesis
      unfolding e using hex4_byte [OF n256] n256 cn by simp
  next
    case lit
    then have e: "escape_char c = [c]"
      by (simp add: escape_char_def n_def [symmetric])
    show ?thesis
      unfolding e using lit by (simp add: n_def)
  qed
qed

lemma escape_char_no_dquote_head: "escape_char c \<noteq> [] \<and> hd (escape_char c) \<noteq> dquote"
  by (simp add: escape_char_def Let_def dquote_def backslash_def)

lemma parse_chars_escaped:
  "parse_chars (concat (map escape_char s) @ dquote # rest) = Some (s, rest)"
proof (induction s)
  case Nil
  then show ?case by simp
next
  case (Cons c s)
  let ?tail = "concat (map escape_char s) @ dquote # rest"
  obtain h t where ht: "escape_char c = h # t" and hq: "h \<noteq> dquote"
    using escape_char_no_dquote_head [of c] by (cases "escape_char c") auto
  have n: "next_char (h # t @ ?tail) = Some (c, ?tail)"
    using next_char_escape [of c ?tail] by (simp add: ht)
  have "parse_chars (h # t @ ?tail) = Some (c # s, rest)"
    using hq n Cons.IH by (simp del: next_char.simps)
  then show ?case by (simp add: ht)
qed

lemma parse_string_encoded: "parse_string (encode_string s @ rest) = Some (s, rest)"
  by (simp add: parse_string_def encode_string_def parse_chars_escaped)

lemma LF_notin_escape_char: "LF \<notin> set (escape_char c)"
proof -
  have "k < 16 \<Longrightarrow> hex_digit k \<noteq> LF" for k
  proof -
    assume "k < 16"
    then have "k \<in> {0, 1, 2, 3, 4, 5, 6, 7, 8, 9, 10, 11, 12, 13, 14, 15}"
      by (rule less_16_cases)
    then show ?thesis by (auto simp: hex_digit_def LF_def)
  qed
  then have h: "hex_digit (of_char c mod 16) \<noteq> LF" "hex_digit (of_char c div 16) \<noteq> LF"
    by (simp_all add: less_mult_imp_div_less)
  have "of_char c = (10::nat)" if "c = LF"
    using that by (simp add: LF_def)
  then show ?thesis
    using h by (auto simp: escape_char_def Let_def LF_def dquote_def backslash_def)
qed

lemma LF_notin_encode_string: "LF \<notin> set (encode_string s)"
  using LF_notin_escape_char by (auto simp: encode_string_def LF_def dquote_def)

lemma parse_members_json:
  "kvs \<noteq> [] \<Longrightarrow> parse_members (members_json kvs @ CHR ''}'' # rest) = Some (kvs, rest)"
proof (induction kvs rule: members_json.induct)
  case 1
  then show ?case by simp
next
  case (2 kv)
  have "parse_members (encode_string (fst kv) @ CHR '':'' # encode_string (snd kv) @ CHR ''}'' # rest)
          = Some ([kv], rest)"
    by (subst parse_members.simps) (simp add: parse_string_encoded)
  then show ?case by (simp add: member_json_def)
next
  case (3 kv kv' kvs)
  let ?tail = "members_json (kv' # kvs) @ CHR ''}'' # rest"
  have ih: "parse_members ?tail = Some (kv' # kvs, rest)"
    using "3.IH" by simp
  have "parse_members (encode_string (fst kv) @ CHR '':'' # encode_string (snd kv) @ CHR '','' # ?tail)
          = Some (kv # kv' # kvs, rest)"
    by (subst parse_members.simps) (simp add: parse_string_encoded ih)
  then show ?case by (simp add: member_json_def)
qed

lemma members_json_head:
  "kvs \<noteq> [] \<Longrightarrow> \<exists>t. members_json kvs = dquote # t"
  by (induction kvs rule: members_json.induct) (auto simp: member_json_def encode_string_def)

lemma parse_object_json: "parse_object (object_json kvs @ rest) = Some (kvs, rest)"
proof (cases "kvs = []")
  case True
  then show ?thesis by (simp add: parse_object_def object_json_def)
next
  case False
  then obtain t where t: "members_json kvs = dquote # t"
    using members_json_head by blast
  have "parse_members (members_json kvs @ CHR ''}'' # rest) = Some (kvs, rest)"
    using False by (rule parse_members_json)
  then show ?thesis
    using t by (simp add: parse_object_def object_json_def dquote_def)
qed

lemma parse_line_json: "parse_line (object_json kvs) = Some kvs"
  using parse_object_json [of kvs "[]"] by (simp add: parse_line_def)

lemma LF_notin_members_json: "LF \<notin> set (members_json kvs)"
  using LF_notin_encode_string
  by (induction kvs rule: members_json.induct) (auto simp: member_json_def LF_def)

lemma LF_notin_object_json: "LF \<notin> set (object_json kvs)"
  using LF_notin_members_json [of kvs] by (auto simp: object_json_def LF_def)

lemma split_lines_acc_line:
  "LF \<notin> set l \<Longrightarrow> split_lines_acc acc (l @ LF # rest) = (rev acc @ l) # split_lines_acc [] rest"
  by (induction l arbitrary: acc) auto

lemma split_lines_to_json:
  "split_lines_acc [] (to_json_lines columns rows_values)
     = map (\<lambda>vals. object_json (zip columns vals)) rows_values"
proof (induction rows_values)
  case Nil
  then show ?case by (simp add: to_json_lines_def)
next
  case (Cons vals rows_values)
  have "split_lines_acc [] (object_json (zip columns vals) @ LF # to_json_lines columns rows_values)
          = object_json (zip columns vals) # split_lines_acc [] (to_json_lines columns rows_values)"
    using split_lines_acc_line [OF LF_notin_object_json, of "[]"] by simp
  then show ?case using Cons.IH by (simp add: to_json_lines_def)
qed

lemma those_map_Some: "(\<And>x. x \<in> set xs \<Longrightarrow> f x = Some (g x)) \<Longrightarrow> those (map f xs) = Some (map g xs)"
  by (induction xs) auto

lemma read_json_lines_to_json:
  "read_json_lines (to_json_lines columns rows_values) = Some (map (zip columns) rows_values)"
  unfolding read_json_lines_def split_lines_to_json map_map comp_def
  by (rule those_map_Some) (rule parse_line_json)

text \<open>
  C6. Writing any sequence of rows with the fields \<open>input_text_instruct\<close> and
  \<open>output_text\<close> as JSON Lines and reading the text back gives the same rows, field by
  field, and as many objects as there were rows.
\<close>

theorem jsonl_round_trip:
  "read_tuning_rows (tune_jsonl train) = Some train
   \<and> (\<exists>objects. read_json_lines (tune_jsonl train) = Some objects \<and> length objects = length train)"
proof -
  let ?vals = "\<lambda>r. [row_input_text_instruct r, row_output_text r]"
  have r: "read_json_lines (tune_jsonl train) = Some (map (zip cols) (map ?vals train))"
    unfolding tune_jsonl_def by (rule read_json_lines_to_json)
  have "those (map row_of_object (map (zip cols) (map ?vals train))) = Some (map (\<lambda>r. r) train)"
    unfolding map_map comp_def
    by (rule those_map_Some) (simp add: row_of_object_def cols_def)
  then have "read_tuning_rows (tune_jsonl train) = Some train"
    by (simp add: read_tuning_rows_def r)
  then show ?thesis using r by simp
qed

end
